theory Spec2Isabelle
  imports Complex_Main
begin

section \<open>The catalog and its title index (app.py, lines 39-41)\<close>

text \<open>
  One row of the data frame \<open>df\<close> read from \<open>clean_data.csv\<close>. Only the columns the
  recommendation logic reads are kept: \<open>title\<close>, \<open>type\<close> and \<open>content\<close>. The column
  \<open>type\<close> is a string in the source (\<open>"Movie"\<close>, \<open>"TV Show"\<close>); the field is named
  \<open>ctype\<close> here. The frame's index is the default range index, so the label of a row is
  its position.

  A cell of the text column \<open>content\<close> is a text or the missing value \<open>NaN\<close>, which is
  what \<open>pd.read_csv\<close> puts where the field of the file is empty. A text is a list of
  characters; the type of characters is left open. A column that \<open>pd.read_csv\<close> reads
  as numbers, because every field of it is one, has no place in this type.
\<close>

datatype 'c cell = Text "'c list" | NaN

record 'c entry =
  title :: string
  ctype :: string
  content :: "'c cell"

type_synonym 'c dataframe = "'c entry list"

text \<open>
  The exceptions the modelled code can raise. \<open>RequestException\<close> stands for
  \<open>requests.exceptions.RequestException\<close> and all its subclasses.
\<close>

datatype exn =
  KeyError | ValueError | IndexError | AttributeError | TypeError | RequestException

text \<open>
  A pandas \<open>Series\<close> with a possibly non-unique index: the rows in order, each a pair of
  its index label and its value.
\<close>

type_synonym ('k, 'v) series = "('k \<times> 'v) list"

definition Series :: "'v list \<Rightarrow> 'k list \<Rightarrow> ('k, 'v) series" where
  \<comment> \<open>\<open>pd.Series(data, index=index)\<close>\<close>
  "Series data index = zip index data"

text \<open>
  \<open>Series.drop_duplicates()\<close> (\<open>keep='first'\<close>): a row is dropped when its VALUE has
  occurred in an earlier row; the index labels play no part.
\<close>

fun drop_dups_from :: "'v list \<Rightarrow> ('k, 'v) series \<Rightarrow> ('k, 'v) series" where
  "drop_dups_from seen [] = []"
| "drop_dups_from seen ((k, v) # rows) =
     (if v \<in> set seen then drop_dups_from seen rows
      else (k, v) # drop_dups_from (v # seen) rows)"

definition drop_duplicates :: "('k, 'v) series \<Rightarrow> ('k, 'v) series" where
  "drop_duplicates s = drop_dups_from [] s"

text \<open>
  \<open>s[label]\<close> on a series with a non-unique index: \<open>KeyError\<close> when no row has the label,
  the value itself when exactly one row has it, and a sub-series of all the matching rows
  when several have it.
\<close>

datatype 'v selection = Scalar 'v | Many "'v list"

definition getitem :: "('k, 'v) series \<Rightarrow> 'k \<Rightarrow> exn + 'v selection" where
  "getitem s label =
     (case map snd (filter (\<lambda>row. fst row = label) s) of
        [] \<Rightarrow> Inl KeyError
      | [v] \<Rightarrow> Inr (Scalar v)
      | vs \<Rightarrow> Inr (Many vs))"

definition indices :: "'c dataframe \<Rightarrow> (string, nat) series" where
  \<comment> \<open>\<open>indices = pd.Series(df.index, index=df['title']).drop_duplicates()\<close>\<close>
  "indices df = drop_duplicates (Series [0..<length df] (map title df))"

section \<open>Recommendation by title (app.py, lines 127-140)\<close>

text \<open>
  \<open>sorted(xs, key=key, reverse=reverse)\<close>. The sort is stable; with \<open>reverse=True\<close> the
  list is reversed, sorted stably in ascending key order and reversed again, which is how
  the interpreter keeps equal keys in their original order.
\<close>

definition sorted_py :: "('a \<Rightarrow> 'k::linorder) \<Rightarrow> bool \<Rightarrow> 'a list \<Rightarrow> 'a list" where
  "sorted_py key reverse xs =
     (if reverse then rev (sort_key key (rev xs)) else sort_key key xs)"

text \<open>
  The slice \<open>xs[:n]\<close> for an integer \<open>n\<close>: the first \<open>n\<close> elements when \<open>n\<close> is not
  negative, and all but the last \<open>-n\<close> elements when it is.
\<close>

definition slice_to :: "int \<Rightarrow> 'a list \<Rightarrow> 'a list" where
  "slice_to n xs =
     (if 0 \<le> n then take (nat n) xs else take (length xs - nat (- n)) xs)"

text \<open>\<open>df.iloc[i]\<close> for one position: \<open>IndexError\<close> out of range.\<close>

definition iloc :: "'c dataframe \<Rightarrow> nat \<Rightarrow> exn + 'c entry" where
  "iloc df i = (if i < length df then Inr (df ! i) else Inl IndexError)"

text \<open>
  The list comprehension of lines 134-137: it walks the sorted pairs in order, reads the
  row of each pair and keeps the pair when the row has the input's type and is not the
  input row. The first position out of range raises.
\<close>

fun filter_candidates ::
  "'c dataframe \<Rightarrow> string \<Rightarrow> nat \<Rightarrow> (nat \<times> real) list \<Rightarrow> exn + (nat \<times> real) list" where
  "filter_candidates df input_type idx [] = Inr []"
| "filter_candidates df input_type idx (i # rest) =
     (case iloc df (fst i) of
        Inl e \<Rightarrow> Inl e
      | Inr row \<Rightarrow>
          (case filter_candidates df input_type idx rest of
             Inl e \<Rightarrow> Inl e
           | Inr kept \<Rightarrow>
               Inr (if ctype row = input_type \<and> fst i \<noteq> idx then i # kept else kept)))"

text \<open>\<open>df.iloc[positions]\<close>: the selected rows, each with its label in \<open>df\<close>.\<close>

fun iloc_list :: "'c dataframe \<Rightarrow> nat list \<Rightarrow> exn + (nat \<times> 'c entry) list" where
  "iloc_list df [] = Inr []"
| "iloc_list df (i # rest) =
     (case iloc df i of
        Inl e \<Rightarrow> Inl e
      | Inr row \<Rightarrow>
          (case iloc_list df rest of
             Inl e \<Rightarrow> Inl e
           | Inr rows \<Rightarrow> Inr ((i, row) # rows)))"

text \<open>
  \<open>recommend_by_title(title, n)\<close>, with the globals \<open>df\<close> and \<open>cosine_sim\<close> as arguments
  and \<open>indices\<close> computed from \<open>df\<close> as line 41 does. The result is the data frame
  \<open>df.iloc[rec_indices]\<close>: the chosen rows in order, each with its label.

  When the title labels several rows of \<open>indices\<close>, \<open>idx\<close> is a series of positions,
  \<open>cosine_sim[idx]\<close> is a two-dimensional array with one row per position, and \<open>sorted\<close>
  compares two of these array rows, which raises \<open>ValueError\<close> (the truth value of an
  array with more than one element is ambiguous) as soon as the matrix rows have two or
  more columns; the matrix built from a frame in which a title repeats has.
\<close>

definition recommend_by_title ::
  "'c dataframe \<Rightarrow> real list list \<Rightarrow> string \<Rightarrow> int \<Rightarrow> exn + (nat \<times> 'c entry) list" where
  "recommend_by_title df cosine_sim t n =
     (case getitem (indices df) t of
        Inl e \<Rightarrow> Inl e
      | Inr (Many idxs) \<Rightarrow>
          (if \<exists>i \<in> set idxs. length cosine_sim \<le> i then Inl IndexError
           else Inl ValueError)
      | Inr (Scalar idx) \<Rightarrow>
          (case iloc df idx of
             Inl e \<Rightarrow> Inl e
           | Inr input_row \<Rightarrow>
               (if length cosine_sim \<le> idx then Inl IndexError
                else
                  let input_type = ctype input_row;
                      sim_scores = zip [0..<length (cosine_sim ! idx)] (cosine_sim ! idx);
                      sim_scores = sorted_py snd True sim_scores
                  in (case filter_candidates df input_type idx sim_scores of
                        Inl e \<Rightarrow> Inl e
                      | Inr filtered \<Rightarrow>
                          iloc_list df (map fst (slice_to n filtered))))))"

text \<open>
  The globals fit together when \<open>cosine_sim\<close> is a square matrix with one row and one
  column per row of \<open>df\<close>, as the matrix computed from \<open>df\<close> at line 122 is.
\<close>

definition square_for :: "'c dataframe \<Rightarrow> 'a list list \<Rightarrow> bool" where
  "square_for df cosine_sim \<longleftrightarrow>
     length cosine_sim = length df \<and> list_all (\<lambda>row. length row = length df) cosine_sim"

text \<open>The rows a recommendation for row \<open>idx\<close> may return: the others of its type.\<close>

definition candidates :: "'c dataframe \<Rightarrow> nat \<Rightarrow> nat set" where
  "candidates df idx = {i. i < length df \<and> i \<noteq> idx \<and> ctype (df ! i) = ctype (df ! idx)}"

text \<open>
  The order the recommendation list is read in: a pair \<open>(row, score)\<close> comes before
  another when its score is higher, or the scores are equal and its row is earlier.
\<close>

definition before :: "(nat \<times> real) \<Rightarrow> (nat \<times> real) \<Rightarrow> bool" where
  "before a b \<longleftrightarrow> snd b < snd a \<or> (snd a = snd b \<and> fst a < fst b)"

text \<open>
  The pairs left after sorting and filtering (\<open>filtered\<close> at line 134) when every
  position is in range.
\<close>

definition ranked :: "'c dataframe \<Rightarrow> real list list \<Rightarrow> nat \<Rightarrow> (nat \<times> real) list" where
  "ranked df cosine_sim idx =
     filter (\<lambda>p. ctype (df ! fst p) = ctype (df ! idx) \<and> fst p \<noteq> idx)
       (sorted_py snd True (zip [0..<length (cosine_sim ! idx)] (cosine_sim ! idx)))"

subsection \<open>Small catalogs for concrete runs\<close>

definition mk :: "string \<Rightarrow> string \<Rightarrow> string \<Rightarrow> char entry" where
  "mk t ty c = \<lparr>title = t, ctype = ty, content = Text c\<rparr>"

definition catalog_dup :: "char dataframe" where
  "catalog_dup =
     [mk ''A'' ''Movie'' ''space adventure robots'',
      mk ''B'' ''Movie'' ''space adventure aliens'',
      mk ''A'' ''TV Show'' ''cooking contest'']"

definition catalog4 :: "char dataframe" where
  "catalog4 =
     [mk ''A'' ''Movie'' ''space adventure robots'',
      mk ''B'' ''Movie'' ''space adventure aliens'',
      mk ''C'' ''TV Show'' ''space adventure robots'',
      mk ''D'' ''Movie'' ''space adventure aliens'']"

definition sim4 :: "real list list" where
  "sim4 =
     [[1, 1/2, 1, 1/2],
      [1/2, 1, 1/2, 1],
      [1, 1/2, 1, 1/2],
      [1/2, 1, 1/2, 1]]"

section \<open>The similarity matrix (app.py, lines 113-122)\<close>

text \<open>
  \<open>compute_cosine_similarity\<close> is two calls into scikit-learn, whose pipeline is modelled
  step by step. What belongs to the library or the language and not to this repository
  is a parameter, gathered in one record: the Unicode tables behind \<open>str.lower\<close> and the
  token pattern, the stop-word list the library names \<open>english\<close>, the choice of the
  columns that survive \<open>max_features\<close>, and the 64-bit floating-point operations.
  Nothing is assumed of them, so what is proved of the model for every such record holds
  for the library's own tables and arithmetic.
\<close>

record ('c, 'a) library =
  lower :: "'c list \<Rightarrow> 'c list"
  word_char :: "'c \<Rightarrow> bool"
  stop_words :: "'c list list"
  kept :: "'c list list list \<Rightarrow> 'c list list"
  fzero :: 'a
  fadd :: "'a \<Rightarrow> 'a \<Rightarrow> 'a"
  fmul :: "'a \<Rightarrow> 'a \<Rightarrow> 'a"
  fdiv :: "'a \<Rightarrow> 'a \<Rightarrow> 'a"
  fsqrt :: "'a \<Rightarrow> 'a"
  tf :: "nat \<Rightarrow> 'a"
  idf :: "nat \<Rightarrow> nat \<Rightarrow> 'a"

text \<open>
  \<open>lower\<close> is \<open>str.lower\<close>; \<open>word_char\<close> says which characters the pattern class \<open>\w\<close>
  matches; \<open>kept\<close> gives, for an analysed corpus of more than 5000 terms, the columns
  the library keeps; \<open>fzero\<close> is the float \<open>0.0\<close>; \<open>fadd\<close>, \<open>fmul\<close>, \<open>fdiv\<close> and
  \<open>fsqrt\<close> are the float operations; \<open>tf\<close> turns a count into a float; \<open>idf n df\<close> is
  the float the library computes for \<open>ln ((1 + n) / (1 + df)) + 1\<close>.
\<close>

subsection \<open>\<open>TfidfVectorizer(stop_words='english', max_features=5000)\<close>\<close>

text \<open>
  The default analyzer: the text is lower-cased, its tokens are the matches of the
  pattern \<open>\b\w\w+\b\<close>, that is the maximal runs of word characters that are two or
  more characters long, and the tokens on the stop-word list are dropped.
\<close>

fun word_runs :: "('c \<Rightarrow> bool) \<Rightarrow> 'c list \<Rightarrow> 'c list \<Rightarrow> 'c list list" where
  "word_runs is_word cur [] = (if cur = [] then [] else [cur])"
| "word_runs is_word cur (c # cs) =
     (if is_word c then word_runs is_word (cur @ [c]) cs
      else (if cur = [] then [] else [cur]) @ word_runs is_word [] cs)"

definition tokenize :: "('c, 'a) library \<Rightarrow> 'c list \<Rightarrow> 'c list list" where
  "tokenize lib s = filter (\<lambda>w. 2 \<le> length w) (word_runs (word_char lib) [] s)"

definition analyze :: "('c, 'a) library \<Rightarrow> 'c list \<Rightarrow> 'c list list" where
  "analyze lib doc =
     filter (\<lambda>w. w \<notin> set (stop_words lib)) (tokenize lib (lower lib doc))"

text \<open>
  The documents are analysed in order. A missing value is not a document: the library
  raises \<open>ValueError\<close> for it.
\<close>

fun analyze_all :: "('c, 'a) library \<Rightarrow> 'c cell list \<Rightarrow> exn + 'c list list list" where
  "analyze_all lib [] = Inr []"
| "analyze_all lib (NaN # cells) = Inl ValueError"
| "analyze_all lib (Text s # cells) =
     (case analyze_all lib cells of
        Inl e \<Rightarrow> Inl e
      | Inr others \<Rightarrow> Inr (analyze lib s # others))"

text \<open>
  The fitted vocabulary, for the analysed documents: every term of the corpus is a
  column, and when there are more than \<open>max_features = 5000\<close> of them the library keeps
  5000. The library puts the columns in alphabetical order; a row below lists its
  entries in the order of this list, and only which columns two rows share matters to
  what is proved.
\<close>

definition max_features :: nat where
  "max_features = 5000"

definition all_terms :: "'c list list list \<Rightarrow> 'c list list" where
  "all_terms analyzed = remdups (concat analyzed)"

definition vocabulary :: "('c, 'a) library \<Rightarrow> 'c list list list \<Rightarrow> 'c list list" where
  "vocabulary lib analyzed =
     (if length (all_terms analyzed) \<le> max_features then all_terms analyzed
      else kept lib analyzed)"

text \<open>
  The feature matrix is sparse: a row stores an entry for each column whose term occurs
  in the document, and nothing for the other columns. The entry is the count of the term
  times its inverse document frequency. Each row is then divided by its Euclidean norm;
  a row whose sum of squares is \<open>0.0\<close> is skipped.
\<close>

type_synonym ('c, 'a) sparse_row = "('c list \<times> 'a) list"

definition sum_squares :: "('c, 'a) library \<Rightarrow> ('c, 'a) sparse_row \<Rightarrow> 'a" where
  "sum_squares lib row =
     foldl (\<lambda>acc v. fadd lib acc (fmul lib v v)) (fzero lib) (map snd row)"

definition normalize_row :: "('c, 'a) library \<Rightarrow> ('c, 'a) sparse_row \<Rightarrow> ('c, 'a) sparse_row" where
  "normalize_row lib row =
     (if sum_squares lib row = fzero lib then row
      else map (\<lambda>(t, v). (t, fdiv lib v (fsqrt lib (sum_squares lib row)))) row)"

definition doc_freq :: "'c list list list \<Rightarrow> 'c list \<Rightarrow> nat" where
  "doc_freq analyzed t = length (filter (\<lambda>d. t \<in> set d) analyzed)"

definition tfidf_row ::
  "('c, 'a) library \<Rightarrow> 'c list list list \<Rightarrow> 'c list list \<Rightarrow> ('c, 'a) sparse_row" where
  "tfidf_row lib analyzed d =
     normalize_row lib
       (map (\<lambda>t. (t, fmul lib (tf lib (count_list d t))
                      (idf lib (length analyzed) (doc_freq analyzed t))))
          (filter (\<lambda>t. t \<in> set d) (vocabulary lib analyzed)))"

text \<open>
  \<open>fit_transform\<close> raises \<open>ValueError\<close> for a missing document, and \<open>ValueError\<close> (empty
  vocabulary) when no document has a term left after analysis.
\<close>

definition fit_transform ::
  "('c, 'a) library \<Rightarrow> 'c cell list \<Rightarrow> exn + ('c, 'a) sparse_row list" where
  "fit_transform lib raw_documents =
     (case analyze_all lib raw_documents of
        Inl e \<Rightarrow> Inl e
      | Inr analyzed \<Rightarrow>
          if all_terms analyzed = [] then Inl ValueError
          else Inr (map (tfidf_row lib analyzed) analyzed))"

subsection \<open>\<open>cosine_similarity(X, Y)\<close>\<close>

text \<open>
  Both arguments are normalised row by row and multiplied as sparse matrices: the
  product of a row \<open>x\<close> with a row \<open>y\<close> adds up, from \<open>0.0\<close>, the products of the
  entries in the columns both rows store. The result is returned dense, so a pair of
  rows that share no column has the entry \<open>0.0\<close>.
\<close>

definition sdot :: "('c, 'a) library \<Rightarrow> ('c, 'a) sparse_row \<Rightarrow> ('c, 'a) sparse_row \<Rightarrow> 'a" where
  "sdot lib x y =
     foldl (fadd lib) (fzero lib)
       (concat (map (\<lambda>(t, v). map (\<lambda>(u, w). fmul lib v w) (filter (\<lambda>(u, w). u = t) y)) x))"

definition cosine_similarity ::
  "('c, 'a) library \<Rightarrow> ('c, 'a) sparse_row list \<Rightarrow> ('c, 'a) sparse_row list \<Rightarrow> 'a list list" where
  "cosine_similarity lib X Y =
     (let X_normalized = map (normalize_row lib) X;
          Y_normalized = map (normalize_row lib) Y
      in map (\<lambda>x. map (\<lambda>y. sdot lib x y) Y_normalized) X_normalized)"

definition compute_cosine_similarity ::
  "('c, 'a) library \<Rightarrow> 'c dataframe \<Rightarrow> exn + 'a list list" where
  "compute_cosine_similarity lib data =
     (case fit_transform lib (map content data) of
        Inl e \<Rightarrow> Inl e
      | Inr tfidf_matrix \<Rightarrow> Inr (cosine_similarity lib tfidf_matrix tfidf_matrix))"

text \<open>The terms of a cell that is a text; a missing value has none.\<close>

fun terms_of :: "('c, 'a) library \<Rightarrow> 'c cell \<Rightarrow> 'c list list" where
  "terms_of lib (Text s) = analyze lib s"
| "terms_of lib NaN = []"

subsection \<open>Small inputs for concrete runs\<close>

text \<open>
  A sample of the parameters: the ASCII part of the tables, a few entries of the
  stop-word list (no other word of the catalogs below is on the full list), and exact
  arithmetic with the value \<open>None\<close> for not-a-number, which a division by zero gives.
\<close>

definition is_word_char :: "char \<Rightarrow> bool" where
  "is_word_char c \<longleftrightarrow>
     c \<in> set ''abcdefghijklmnopqrstuvwxyzABCDEFGHIJKLMNOPQRSTUVWXYZ0123456789_''"

definition lower_char :: "char \<Rightarrow> char" where
  "lower_char c =
     (case map_of (zip ''ABCDEFGHIJKLMNOPQRSTUVWXYZ'' ''abcdefghijklmnopqrstuvwxyz'') c of
        None \<Rightarrow> c
      | Some l \<Rightarrow> l)"

definition some_stop_words :: "string list" where
  "some_stop_words = [''the'', ''and'', ''of'', ''is'', ''in'', ''to'']"

definition lift2 :: "(real \<Rightarrow> real \<Rightarrow> real) \<Rightarrow> real option \<Rightarrow> real option \<Rightarrow> real option" where
  "lift2 f x y = (case (x, y) of (Some a, Some b) \<Rightarrow> Some (f a b) | _ \<Rightarrow> None)"

definition sample_lib :: "(char, real option) library" where
  "sample_lib =
     \<lparr>lower = map lower_char,
      word_char = is_word_char,
      stop_words = some_stop_words,
      kept = (\<lambda>analyzed. take max_features (all_terms analyzed)),
      fzero = Some 0,
      fadd = lift2 (+),
      fmul = lift2 (*),
      fdiv = (\<lambda>x y. if y = Some 0 then None else lift2 (/) x y),
      fsqrt = map_option sqrt,
      tf = (\<lambda>n. Some (real n)),
      idf = (\<lambda>n df. Some (ln ((1 + real n) / (1 + real df)) + 1))\<rparr>"

definition catalog_stop :: "char dataframe" where
  "catalog_stop =
     [\<lparr>title = ''A'', ctype = ''Movie'', content = Text ''Space adventure''\<rparr>,
      \<lparr>title = ''C'', ctype = ''Movie'', content = Text ''the and of''\<rparr>]"

definition catalog_missing :: "char dataframe" where
  "catalog_missing =
     [\<lparr>title = ''A'', ctype = ''Movie'', content = Text ''Space adventure''\<rparr>,
      \<lparr>title = ''B'', ctype = ''Movie'', content = NaN\<rparr>]"

section \<open>Poster lookup (app.py, lines 46 and 79-108)\<close>

text \<open>
  The value \<open>response.json()\<close> decodes to: \<open>None\<close>, a bool, a number, a string, a list
  or a dict with string keys (an association list, each key once).
\<close>

datatype json =
  JNull | JBool bool | JNum real | JStr string | JArr "json list" | JObj "(string \<times> json) list"

text \<open>The truth value of a decoded value, as \<open>if x:\<close> reads it.\<close>

fun truthy :: "json \<Rightarrow> bool" where
  "truthy JNull = False"
| "truthy (JBool b) = b"
| "truthy (JNum x) = (x \<noteq> 0)"
| "truthy (JStr s) = (s \<noteq> [])"
| "truthy (JArr xs) = (xs \<noteq> [])"
| "truthy (JObj kvs) = (kvs \<noteq> [])"

text \<open>\<open>x.get(key)\<close>: only a dict has the method; a missing key gives \<open>None\<close>.\<close>

fun dict_get :: "json \<Rightarrow> string \<Rightarrow> exn + json" where
  "dict_get (JObj kvs) k = Inr (case map_of kvs k of None \<Rightarrow> JNull | Some v \<Rightarrow> v)"
| "dict_get other k = Inl AttributeError"

text \<open>
  \<open>x[0]\<close>: the first element of a list, the first character of a string, a key lookup in
  a dict (whose keys are strings, so the key \<open>0\<close> is missing); \<open>None\<close>, bools and numbers
  are not subscriptable.
\<close>

fun subscript0 :: "json \<Rightarrow> exn + json" where
  "subscript0 (JArr []) = Inl IndexError"
| "subscript0 (JArr (x # xs)) = Inr x"
| "subscript0 (JStr []) = Inl IndexError"
| "subscript0 (JStr (c # s)) = Inr (JStr [c])"
| "subscript0 (JObj kvs) = Inl KeyError"
| "subscript0 other = Inl TypeError"

text \<open>\<open>prefix + x\<close> for a string \<open>prefix\<close>: only a string can be added to it.\<close>

fun str_add :: "string \<Rightarrow> json \<Rightarrow> exn + string" where
  "str_add prefix (JStr s) = Inr (prefix @ s)"
| "str_add prefix other = Inl TypeError"

text \<open>
  A response of \<open>requests.get\<close>: its status code and what \<open>response.json()\<close> does, which
  is to return the decoded body or to raise. A request is the URL with its parameters.
  The network is a function from the request to what \<open>requests.get\<close> does with it:
  raise, or return a response.
\<close>

record response =
  status_code :: int
  json_body :: "exn + json"

type_synonym request = "string \<times> (string \<times> string) list"

type_synonym network = "request \<Rightarrow> exn + response"

text \<open>
  The \<open>try\<close> block of \<open>fetch_poster\<close>, lines 82-105, for a call that is not answered from
  the \<open>st.cache_data\<close> cache. \<open>key\<close> is the global \<open>TMDB_API_KEY\<close>, the value of
  \<open>os.getenv\<close>: \<open>None\<close> when the variable is not set. The result is the list of the
  requests sent, and the value returned (\<open>None\<close> or a URL) or the exception raised.
\<close>

definition fetch_poster_try ::
  "string option \<Rightarrow> network \<Rightarrow> string \<Rightarrow> string \<Rightarrow> request list \<times> (exn + string option)" where
  "fetch_poster_try key http t content_type =
     (case key of
        None \<Rightarrow> ([], Inr None)
      | Some k \<Rightarrow>
          if k = [] then ([], Inr None)
          else
            let url = (if content_type = ''Movie''
                       then ''https://api.themoviedb.org/3/search/movie''
                       else ''https://api.themoviedb.org/3/search/tv'');
                params = [(''api_key'', k), (''query'', t)]
            in ([(url, params)],
                case http (url, params) of
                  Inl e \<Rightarrow> Inl e
                | Inr response \<Rightarrow>
                    if status_code response \<noteq> 200 then Inr None
                    else
                      (case json_body response of
                         Inl e \<Rightarrow> Inl e
                       | Inr data \<Rightarrow>
                           (case dict_get data ''results'' of
                              Inl e \<Rightarrow> Inl e
                            | Inr results \<Rightarrow>
                                if truthy results then
                                  (case subscript0 results of
                                     Inl e \<Rightarrow> Inl e
                                   | Inr first \<Rightarrow>
                                       (case dict_get first ''poster_path'' of
                                          Inl e \<Rightarrow> Inl e
                                        | Inr poster_path \<Rightarrow>
                                            if truthy poster_path then
                                              (case str_add ''https://image.tmdb.org/t/p/w500'' poster_path of
                                                 Inl e \<Rightarrow> Inl e
                                               | Inr poster \<Rightarrow> Inr (Some poster))
                                            else Inr None))
                                else Inr None))))"

text \<open>
  \<open>fetch_poster\<close>: the \<open>try\<close> block under \<open>except requests.exceptions.RequestException\<close>,
  which turns that exception, and no other, into the value \<open>None\<close>.
\<close>

definition fetch_poster ::
  "string option \<Rightarrow> network \<Rightarrow> string \<Rightarrow> string \<Rightarrow> request list \<times> (exn + string option)" where
  "fetch_poster key http t content_type =
     (case fetch_poster_try key http t content_type of
        (sent, Inl e) \<Rightarrow> (sent, if e = RequestException then Inr None else Inl e)
      | (sent, Inr v) \<Rightarrow> (sent, Inr v))"

text \<open>
  The shape of a search result the code reads without raising: a dict whose \<open>results\<close>,
  when truthy, is a list whose first element is a dict whose \<open>poster_path\<close>, when truthy,
  is a string.
\<close>

fun poster_path_ok :: "json \<Rightarrow> bool" where
  "poster_path_ok (JObj kvs) =
     (case map_of kvs ''poster_path'' of
        None \<Rightarrow> True
      | Some (JStr s) \<Rightarrow> True
      | Some v \<Rightarrow> \<not> truthy v)"
| "poster_path_ok other = False"

fun expected_shape :: "json \<Rightarrow> bool" where
  "expected_shape (JObj kvs) =
     (case map_of kvs ''results'' of
        None \<Rightarrow> True
      | Some (JArr []) \<Rightarrow> True
      | Some (JArr (first # others)) \<Rightarrow> poster_path_ok first
      | Some v \<Rightarrow> \<not> truthy v)"
| "expected_shape other = False"

text \<open>
  What \<open>requests.get\<close> does is tame when it raises \<open>RequestException\<close>, or returns a
  response whose status is not 200, or one whose \<open>json()\<close> raises \<open>RequestException\<close>
  or decodes to the expected shape.
\<close>

fun tame :: "exn + response \<Rightarrow> bool" where
  "tame (Inl e) = (e = RequestException)"
| "tame (Inr r) =
     (status_code r \<noteq> 200 \<or>
      (case json_body r of Inl e \<Rightarrow> e = RequestException | Inr data \<Rightarrow> expected_shape data))"

text \<open>
  What the lookup is to return, in the words of its interface: the poster URL when the
  key is set, the search answers with status 200 and the first result carries a poster
  path, and the absence value in every other case.
\<close>

definition poster_url :: "json \<Rightarrow> string option" where
  "poster_url data =
     (case data of
        JObj kvs \<Rightarrow>
          (case map_of kvs ''results'' of
             Some (JArr (JObj first # others)) \<Rightarrow>
               (case map_of first ''poster_path'' of
                  Some (JStr (c # s)) \<Rightarrow> Some (''https://image.tmdb.org/t/p/w500'' @ c # s)
                | _ \<Rightarrow> None)
           | _ \<Rightarrow> None)
      | _ \<Rightarrow> None)"

definition expected_poster :: "string option \<Rightarrow> network \<Rightarrow> string \<Rightarrow> string \<Rightarrow> string option" where
  "expected_poster key http t content_type =
     (case key of
        None \<Rightarrow> None
      | Some k \<Rightarrow>
          if k = [] then None
          else
            (case http (if content_type = ''Movie''
                        then ''https://api.themoviedb.org/3/search/movie''
                        else ''https://api.themoviedb.org/3/search/tv'',
                        [(''api_key'', k), (''query'', t)]) of
               Inl e \<Rightarrow> None
             | Inr r \<Rightarrow>
                 if status_code r \<noteq> 200 then None
                 else (case json_body r of Inl e \<Rightarrow> None | Inr data \<Rightarrow> poster_url data)))"

subsection \<open>Small networks for concrete runs\<close>

definition net_poster :: network where
  "net_poster req =
     Inr \<lparr>status_code = 200,
          json_body = Inr (JObj [(''page'', JNum 1),
            (''results'', JArr [JObj [(''id'', JNum 7), (''poster_path'', JStr ''/p.jpg'')]])])\<rparr>"

definition net_list_body :: network where
  "net_list_body req = Inr \<lparr>status_code = 200, json_body = Inr (JArr [])\<rparr>"

section \<open>Properties of the title index\<close>

lemma drop_dups_from_fresh:
  "distinct (map snd s) \<Longrightarrow> set seen \<inter> snd ` set s = {} \<Longrightarrow> drop_dups_from seen s = s"
proof (induction s arbitrary: seen)
  case Nil
  then show ?case by simp
next
  case (Cons row s)
  obtain k v where row: "row = (k, v)" by (cases row)
  from Cons.prems row have fresh: "v \<notin> set seen" by auto
  from Cons.prems row have "set (v # seen) \<inter> snd ` set s = {}" by auto
  moreover from Cons.prems have "distinct (map snd s)" by simp
  ultimately have "drop_dups_from (v # seen) s = s" by (rule Cons.IH[rotated])
  with fresh row show ?case by simp
qed

lemma indices_keeps_every_row:
  "indices df = zip (map title df) [0..<length df]"
proof -
  have "distinct (map snd (zip (map title df) [0..<length df]))"
    by (simp add: map_snd_zip)
  then show ?thesis
    unfolding indices_def drop_duplicates_def Series_def
    by (intro drop_dups_from_fresh) simp_all
qed

section \<open>Lookups, ranking and the shape of a run\<close>

lemma snd_filter_zip_upt:
  "map snd (filter (\<lambda>r. P (fst r)) (zip xs [0..<length xs])) =
   filter (\<lambda>i. P (xs ! i)) [0..<length xs]"
proof (induction xs rule: rev_induct)
  case Nil
  then show ?case by simp
next
  case (snoc x xs)
  have z: "zip (xs @ [x]) ([0..<length xs] @ [length xs]) = zip xs [0..<length xs] @ [(x, length xs)]"
    by simp
  have f: "filter (\<lambda>i. P ((xs @ [x]) ! i)) [0..<length xs] = filter (\<lambda>i. P (xs ! i)) [0..<length xs]"
    by (rule filter_cong) (auto simp: nth_append)
  show ?case using snoc.IH by (simp add: z f del: zip_append)
qed

lemma getitem_indices:
  "getitem (indices df) t =
     (case filter (\<lambda>i. title (df ! i) = t) [0..<length df] of
        [] \<Rightarrow> Inl KeyError | [v] \<Rightarrow> Inr (Scalar v) | vs \<Rightarrow> Inr (Many vs))"
proof -
  have "map snd (filter (\<lambda>r. fst r = t) (zip (map title df) [0..<length (map title df)])) =
        filter (\<lambda>i. map title df ! i = t) [0..<length (map title df)]"
    by (rule snd_filter_zip_upt)
  moreover have "filter (\<lambda>i. map title df ! i = t) [0..<length df] = filter (\<lambda>i. title (df ! i) = t) [0..<length df]"
    by (rule filter_cong) auto
  ultimately show ?thesis
    by (simp add: getitem_def indices_keeps_every_row)
qed

lemma getitem_Scalar:
  assumes "getitem (indices df) t = Inr (Scalar idx)"
  shows "idx < length df" and "title (df ! idx) = t"
    and "\<And>j. j < length df \<Longrightarrow> title (df ! j) = t \<Longrightarrow> j = idx"
proof -
  from assms have eq: "filter (\<lambda>i. title (df ! i) = t) [0..<length df] = [idx]"
    by (auto simp: getitem_indices split: list.splits)
  then have s: "set (filter (\<lambda>i. title (df ! i) = t) [0..<length df]) = {idx}" by simp
  from s show "idx < length df" "title (df ! idx) = t" by auto
  fix j assume "j < length df" "title (df ! j) = t"
  then have "j \<in> set (filter (\<lambda>i. title (df ! i) = t) [0..<length df])" by simp
  with s show "j = idx" by simp
qed

lemma getitem_absent:
  assumes "t \<notin> title ` set df"
  shows "getitem (indices df) t = Inl KeyError"
proof -
  have "filter (\<lambda>i. title (df ! i) = t) [0..<length df] = []"
    using assms by (auto simp: filter_empty_conv)
  then show ?thesis by (simp add: getitem_indices)
qed

lemma filter_candidates_total:
  "\<forall>p \<in> set xs. fst p < length df \<Longrightarrow>
   filter_candidates df ty idx xs =
     Inr (filter (\<lambda>p. ctype (df ! fst p) = ty \<and> fst p \<noteq> idx) xs)"
  by (induction xs) (simp_all add: iloc_def)

lemma iloc_list_total:
  "\<forall>i \<in> set ps. i < length df \<Longrightarrow> iloc_list df ps = Inr (map (\<lambda>i. (i, df ! i)) ps)"
  by (induction ps) (simp_all add: iloc_def)

lemma set_sorted_py [simp]: "set (sorted_py key r xs) = set xs"
  by (simp add: sorted_py_def)

lemma length_sorted_py [simp]: "length (sorted_py key r xs) = length xs"
  by (simp add: sorted_py_def)

lemma distinct_fst_sorted_py:
  assumes "distinct (map fst xs)"
  shows "distinct (map fst (sorted_py key r xs))"
proof -
  have "card (set (map fst (sorted_py key r xs))) = card (set (map fst xs))" by simp
  also have "\<dots> = length (map fst xs)" using assms by (rule distinct_card)
  finally show ?thesis by (intro card_distinct) simp
qed

lemma set_slice_to: "set (slice_to n xs) \<subseteq> set xs"
  by (auto simp: slice_to_def dest: in_set_takeD)

lemma insort_key_later:
  assumes "sorted_wrt (\<lambda>a b. before b a) zs" and "\<forall>z \<in> set zs. fst z < fst y"
  shows "sorted_wrt (\<lambda>a b. before b a) (insort_key snd y zs)"
  using assms
proof (induction zs)
  case Nil
  then show ?case by simp
next
  case (Cons z zs)
  show ?case
  proof (cases "snd y \<le> snd z")
    case True
    have "before w y" if "w \<in> set (z # zs)" for w
    proof -
      from that Cons.prems(1) have "snd z \<le> snd w" by (auto simp: before_def)
      with True have "snd y \<le> snd w" by simp
      moreover from that Cons.prems(2) have "fst w < fst y" by auto
      ultimately show ?thesis by (auto simp: before_def)
    qed
    with True Cons.prems(1) show ?thesis by simp
  next
    case False
    then have "before y z" by (simp add: before_def)
    moreover from Cons have "sorted_wrt (\<lambda>a b. before b a) (insort_key snd y zs)" by simp
    ultimately show ?thesis using False Cons.prems(1) by (auto simp: set_insort_key)
  qed
qed

lemma sort_key_later:
  "sorted_wrt (\<lambda>a b. fst b < fst a) ys \<Longrightarrow> sorted_wrt (\<lambda>a b. before b a) (sort_key snd ys)"
proof (induction ys)
  case Nil
  then show ?case by simp
next
  case (Cons y ys)
  then have "sorted_wrt (\<lambda>a b. before b a) (sort_key snd ys)" by simp
  moreover from Cons.prems have "\<forall>z \<in> set (sort_key snd ys). fst z < fst y" by simp
  ultimately show ?case by (simp add: insort_key_later)
qed

lemma sorted_py_before:
  assumes "sorted_wrt (\<lambda>a b. fst a < fst b) xs"
  shows "sorted_wrt before (sorted_py snd True xs)"
proof -
  from assms have "sorted_wrt (\<lambda>a b. fst b < fst a) (rev xs)"
    by (simp add: sorted_wrt_rev)
  then have "sorted_wrt (\<lambda>a b. before b a) (sort_key snd (rev xs))"
    by (rule sort_key_later)
  then show ?thesis by (simp add: sorted_py_def sorted_wrt_rev)
qed

lemma enumerate_increasing: "sorted_wrt (\<lambda>a b. fst a < fst b) (zip [0..<length row] row)"
proof -
  have "sorted_wrt (<) (map fst (zip [0..<length row] row))" by (simp add: sorted_wrt_iff_nth_less)
  then show ?thesis by (simp only: sorted_wrt_map)
qed

lemma enumerate_facts:
  assumes "p \<in> set (zip [0..<length row] row)"
  shows "fst p < length row" and "snd p = row ! fst p"
  using assms by (auto simp: set_zip)

lemma square_row:
  assumes "square_for df cosine_sim" and "idx < length df"
  shows "length (cosine_sim ! idx) = length df" and "idx < length cosine_sim"
  using assms by (auto simp: square_for_def list_all_length)

lemma ranked_facts:
  assumes "square_for df cosine_sim" and "idx < length df"
  shows "fst ` set (ranked df cosine_sim idx) = candidates df idx"
    and "distinct (map fst (ranked df cosine_sim idx))"
    and "sorted_wrt before (ranked df cosine_sim idx)"
    and "\<forall>p \<in> set (ranked df cosine_sim idx). snd p = cosine_sim ! idx ! fst p"
proof -
  let ?row = "cosine_sim ! idx"
  let ?en = "zip [0..<length ?row] ?row"
  have len: "length ?row = length df" using assms by (rule square_row)
  have fsts: "fst ` set ?en = {0..<length df}"
  proof -
    have "map fst ?en = [0..<length ?row]" by simp
    then have "set (map fst ?en) = {0..<length df}" by (simp only: len set_upt)
    then show ?thesis by (simp only: set_map)
  qed
  show "fst ` set (ranked df cosine_sim idx) = candidates df idx"
  proof -
    have "fst ` set (ranked df cosine_sim idx) =
          {i \<in> fst ` set ?en. ctype (df ! i) = ctype (df ! idx) \<and> i \<noteq> idx}"
      by (auto simp: ranked_def image_iff)
    also have "\<dots> = candidates df idx" by (auto simp: fsts candidates_def)
    finally show ?thesis .
  qed
  have "distinct (map fst ?en)" by simp
  then have "distinct (map fst (sorted_py snd True ?en))" by (rule distinct_fst_sorted_py)
  then show "distinct (map fst (ranked df cosine_sim idx))"
    unfolding ranked_def by (rule distinct_map_filter)
  have "sorted_wrt before (sorted_py snd True ?en)"
    by (rule sorted_py_before) (rule enumerate_increasing)
  then show "sorted_wrt before (ranked df cosine_sim idx)"
    unfolding ranked_def by (rule sorted_wrt_filter)
  show "\<forall>p \<in> set (ranked df cosine_sim idx). snd p = cosine_sim ! idx ! fst p"
    by (auto simp: ranked_def dest: enumerate_facts(2))
qed

lemma recommend_by_title_Scalar:
  assumes sq: "square_for df cosine_sim"
    and look: "getitem (indices df) t = Inr (Scalar idx)"
  shows "recommend_by_title df cosine_sim t n =
           Inr (map (\<lambda>p. (fst p, df ! fst p)) (slice_to n (ranked df cosine_sim idx)))"
proof -
  from look have idx: "idx < length df" by (rule getitem_Scalar(1))
  let ?row = "cosine_sim ! idx"
  let ?sorted = "sorted_py snd True (zip [0..<length ?row] ?row)"
  have len: "length ?row = length df" and idx': "idx < length cosine_sim"
    using sq idx by (rule square_row)+
  have "\<forall>p \<in> set ?sorted. fst p < length ?row"
    by (auto dest: enumerate_facts(1))
  then have "\<forall>p \<in> set ?sorted. fst p < length df"
    by (simp only: len)
  then have filt: "filter_candidates df (ctype (df ! idx)) idx ?sorted = Inr (ranked df cosine_sim idx)"
    unfolding ranked_def by (rule filter_candidates_total)
  have "fst ` set (ranked df cosine_sim idx) = candidates df idx"
    using sq idx by (rule ranked_facts(1))
  then have "\<forall>i \<in> set (map fst (slice_to n (ranked df cosine_sim idx))). i < length df"
    using set_slice_to[of n "ranked df cosine_sim idx"] by (auto simp: candidates_def)
  then have "iloc_list df (map fst (slice_to n (ranked df cosine_sim idx))) =
             Inr (map (\<lambda>i. (i, df ! i)) (map fst (slice_to n (ranked df cosine_sim idx))))"
    by (rule iloc_list_total)
  with filt idx idx' look show ?thesis
    by (simp add: recommend_by_title_def iloc_def Let_def comp_def)
qed

section \<open>The claims about the title index and the recommendation list\<close>

lemma slice_to_prefix: "\<exists>m. slice_to n xs = take m xs"
  by (auto simp: slice_to_def)


lemma sim4_square: "square_for catalog4 sim4"
  by (simp add: square_for_def catalog4_def sim4_def)

lemma catalog4_A: "getitem (indices catalog4) ''A'' = Inr (Scalar 0)"
  by (simp add: getitem_indices catalog4_def mk_def upt_rec)

lemma catalog4_run:
  "recommend_by_title catalog4 sim4 ''A'' 6 =
     Inr [(1, mk ''B'' ''Movie'' ''space adventure aliens''),
          (3, mk ''D'' ''Movie'' ''space adventure aliens'')]"
  by (simp add: recommend_by_title_def getitem_indices catalog4_def sim4_def mk_def upt_rec
      iloc_def sorted_py_def slice_to_def Let_def eval_nat_numeral)

lemma repeated_title_raises:
  assumes "square_for df cosine_sim" and "getitem (indices df) t = Inr (Many idxs)"
  shows "recommend_by_title df cosine_sim t n = Inl ValueError"
proof -
  from assms(2) have "idxs = filter (\<lambda>i. title (df ! i) = t) [0..<length df]"
    by (auto simp: getitem_indices split: list.splits)
  then have "\<forall>i \<in> set idxs. i < length df" by simp
  with assms(1) have "\<not> (\<exists>i \<in> set idxs. length cosine_sim \<le> i)"
    by (auto simp: square_for_def)
  with assms(2) show ?thesis by (simp add: recommend_by_title_def)
qed

text \<open>
  C1. The claim: the title index maps each title to a single row position, the first
  occurrence in source order. The code calls \<open>drop_duplicates\<close> on the series whose
  VALUES are the row positions, which are all different, so no row is dropped
  (\<open>indices_keeps_every_row\<close>) and a repeated title labels all its rows. In
  \<open>catalog_dup\<close> the title \<open>A\<close> is on rows 0 and 2: the lookup yields both positions,
  not the first one alone.
\<close>

theorem title_index_keeps_duplicate_rows:
  "getitem (indices catalog_dup) ''A'' = Inr (Many [0, 2])"
  by (simp add: getitem_indices catalog_dup_def mk_def upt_rec)

text \<open>
  C4. For every title that labels no row of the title index and every \<open>n\<close>,
  \<open>recommend_by_title\<close> raises \<open>KeyError\<close>, whatever the similarity matrix is; it
  returns no sequence, empty or not.
\<close>

theorem unknown_title_raises:
  assumes "t \<notin> fst ` set (indices df)"
  shows "recommend_by_title df cosine_sim t n = Inl KeyError"
proof -
  have "fst ` set (indices df) = title ` set df"
  proof -
    have "map fst (indices df) = map title df"
      by (simp add: indices_keeps_every_row)
    then have "set (map fst (indices df)) = set (map title df)" by (rule arg_cong)
    then show ?thesis by (simp only: set_map)
  qed
  with assms have "getitem (indices df) t = Inl KeyError" by (simp add: getitem_absent)
  then show ?thesis by (simp add: recommend_by_title_def)
qed

theorem unknown_title_raises_witness:
  "''Z'' \<notin> fst ` set (indices catalog4) \<and> recommend_by_title catalog4 sim4 ''Z'' 6 = Inl KeyError"
proof -
  have h: "''Z'' \<notin> fst ` set (indices catalog4)"
    by (simp add: indices_keeps_every_row catalog4_def mk_def upt_rec)
  from h unknown_title_raises[OF h, of sim4 6] show ?thesis by simp
qed

text \<open>
  C5. For every title the index resolves to one row position \<open>idx\<close> and every \<open>n\<close>,
  \<open>recommend_by_title\<close> returns, and every returned row has the type of row \<open>idx\<close>.
\<close>

theorem type_purity:
  assumes "square_for df cosine_sim" and "getitem (indices df) t = Inr (Scalar idx)"
  shows "\<exists>out. recommend_by_title df cosine_sim t n = Inr out \<and>
               (\<forall>r \<in> set out. ctype (snd r) = ctype (df ! idx))"
proof -
  from assms(2) have idx: "idx < length df" by (rule getitem_Scalar(1))
  let ?rk = "ranked df cosine_sim idx"
  let ?out = "map (\<lambda>p. (fst p, df ! fst p)) (slice_to n ?rk)"
  have run: "recommend_by_title df cosine_sim t n = Inr ?out"
    using assms by (rule recommend_by_title_Scalar)
  have "fst p \<in> candidates df idx" if "p \<in> set (slice_to n ?rk)" for p
    using that set_slice_to[of n ?rk] ranked_facts(1)[OF assms(1) idx] by auto
  then have "\<forall>r \<in> set ?out. ctype (snd r) = ctype (df ! idx)"
    by (auto simp: candidates_def)
  with run show ?thesis by blast
qed

theorem type_purity_witness:
  "square_for catalog4 sim4 \<and> getitem (indices catalog4) ''A'' = Inr (Scalar 0) \<and>
   recommend_by_title catalog4 sim4 ''A'' 6 =
     Inr [(1, mk ''B'' ''Movie'' ''space adventure aliens''),
          (3, mk ''D'' ''Movie'' ''space adventure aliens'')] \<and>
   list_all (\<lambda>r. ctype (snd r) = ctype (catalog4 ! 0))
     [(1::nat, mk ''B'' ''Movie'' ''space adventure aliens''),
      (3, mk ''D'' ''Movie'' ''space adventure aliens'')]"
proof -
  from type_purity[OF sim4_square catalog4_A, of 6]
  have "list_all (\<lambda>r. ctype (snd r) = ctype (catalog4 ! 0))
     [(1::nat, mk ''B'' ''Movie'' ''space adventure aliens''),
      (3, mk ''D'' ''Movie'' ''space adventure aliens'')]"
    by (simp add: catalog4_run)
  with sim4_square catalog4_A catalog4_run show ?thesis by blast
qed

lemma recommended_rows:
  assumes sq: "square_for df cosine_sim"
    and look: "getitem (indices df) t = Inr (Scalar idx)"
  obtains m where
    "recommend_by_title df cosine_sim t n =
       Inr (map (\<lambda>p. (fst p, df ! fst p)) (take m (ranked df cosine_sim idx)))"
    and "0 \<le> n \<Longrightarrow> m = nat n"
proof -
  have run: "recommend_by_title df cosine_sim t n =
       Inr (map (\<lambda>p. (fst p, df ! fst p)) (slice_to n (ranked df cosine_sim idx)))"
    using sq look by (rule recommend_by_title_Scalar)
  show thesis
  proof (cases "0 \<le> n")
    case True
    then have "slice_to n (ranked df cosine_sim idx) = take (nat n) (ranked df cosine_sim idx)"
      by (simp add: slice_to_def)
    with run show thesis by (intro that[of "nat n"]) simp_all
  next
    case False
    then have "slice_to n (ranked df cosine_sim idx) =
        take (length (ranked df cosine_sim idx) - nat (- n)) (ranked df cosine_sim idx)"
      by (simp add: slice_to_def)
    with run False show thesis
      by (intro that[of "length (ranked df cosine_sim idx) - nat (- n)"]) simp_all
  qed
qed

text \<open>
  C6. For every title the index resolves to one row position \<open>idx\<close> and every \<open>n\<close>,
  \<open>recommend_by_title\<close> returns, and no returned row is row \<open>idx\<close> or carries the
  queried title: each returned row is a row of \<open>df\<close> at a position other than \<open>idx\<close>.
\<close>

theorem no_self_inclusion:
  assumes "square_for df cosine_sim" and "getitem (indices df) t = Inr (Scalar idx)"
  shows "\<exists>out. recommend_by_title df cosine_sim t n = Inr out \<and>
               (\<forall>r \<in> set out. fst r \<noteq> idx \<and> snd r = df ! fst r \<and> title (snd r) \<noteq> t)"
proof -
  from assms(2) have idx: "idx < length df" by (rule getitem_Scalar(1))
  let ?rk = "ranked df cosine_sim idx"
  let ?out = "map (\<lambda>p. (fst p, df ! fst p)) (slice_to n ?rk)"
  have run: "recommend_by_title df cosine_sim t n = Inr ?out"
    using assms by (rule recommend_by_title_Scalar)
  have cand: "fst p \<in> candidates df idx" if "p \<in> set (slice_to n ?rk)" for p
    using that set_slice_to[of n ?rk] ranked_facts(1)[OF assms(1) idx] by auto
  have "fst r \<noteq> idx \<and> snd r = df ! fst r \<and> title (snd r) \<noteq> t" if "r \<in> set ?out" for r
  proof -
    from that obtain p where p: "p \<in> set (slice_to n ?rk)" and r: "r = (fst p, df ! fst p)"
      by auto
    from cand[OF p] have lt: "fst p < length df" and ne: "fst p \<noteq> idx"
      by (simp_all add: candidates_def)
    have "title (df ! fst p) \<noteq> t"
    proof
      assume "title (df ! fst p) = t"
      with lt have "fst p = idx" by (rule getitem_Scalar(3)[OF assms(2)])
      with ne show False by contradiction
    qed
    with r ne show ?thesis by simp
  qed
  with run show ?thesis by blast
qed

theorem no_self_inclusion_witness:
  "square_for catalog4 sim4 \<and> getitem (indices catalog4) ''A'' = Inr (Scalar 0) \<and>
   recommend_by_title catalog4 sim4 ''A'' 6 =
     Inr [(1, mk ''B'' ''Movie'' ''space adventure aliens''),
          (3, mk ''D'' ''Movie'' ''space adventure aliens'')] \<and>
   list_all (\<lambda>r. fst r \<noteq> 0 \<and> snd r = catalog4 ! fst r \<and> title (snd r) \<noteq> ''A'')
     [(1::nat, mk ''B'' ''Movie'' ''space adventure aliens''),
      (3, mk ''D'' ''Movie'' ''space adventure aliens'')]"
proof -
  from no_self_inclusion[OF sim4_square catalog4_A, of 6]
  obtain out where run: "recommend_by_title catalog4 sim4 ''A'' 6 = Inr out"
    and good: "\<forall>r \<in> set out. fst r \<noteq> 0 \<and> snd r = catalog4 ! fst r \<and> title (snd r) \<noteq> ''A''"
    by blast
  from run have out: "out = [(1, mk ''B'' ''Movie'' ''space adventure aliens''),
          (3, mk ''D'' ''Movie'' ''space adventure aliens'')]"
    by (simp only: catalog4_run sum.inject)
  from good have "list_all (\<lambda>r. fst r \<noteq> 0 \<and> snd r = catalog4 ! fst r \<and> title (snd r) \<noteq> ''A'')
     [(1::nat, mk ''B'' ''Movie'' ''space adventure aliens''),
      (3, mk ''D'' ''Movie'' ''space adventure aliens'')]"
    unfolding out list_all_iff .
  with sim4_square catalog4_A catalog4_run show ?thesis by blast
qed


lemma catalog4_candidates: "1 \<in> candidates catalog4 0" "3 \<in> candidates catalog4 0"
  by (simp_all add: candidates_def catalog4_def mk_def)



text \<open>
  C3. For every title the index resolves to one row position \<open>idx\<close>: the returned rows
  are in descending order of their similarity to row \<open>idx\<close>, and of two candidates
  \<open>a < b\<close> with equal similarity to row \<open>idx\<close>, whenever \<open>b\<close> is returned, \<open>a\<close> is
  returned at an earlier place.
\<close>

theorem tie_break:
  assumes sq: "square_for df cosine_sim"
    and look: "getitem (indices df) t = Inr (Scalar idx)"
    and a: "a \<in> candidates df idx" and b: "b \<in> candidates df idx"
    and ab: "a < b"
    and tie: "cosine_sim ! idx ! a = cosine_sim ! idx ! b"
  shows "\<exists>out. recommend_by_title df cosine_sim t n = Inr out \<and>
               sorted_wrt (\<lambda>r s. cosine_sim ! idx ! fst s \<le> cosine_sim ! idx ! fst r) out \<and>
               (\<forall>j < length out. fst (out ! j) = b \<longrightarrow> (\<exists>i < j. fst (out ! i) = a))"
proof -
  from look have idx: "idx < length df" by (rule getitem_Scalar(1))
  let ?rk = "ranked df cosine_sim idx"
  let ?g = "\<lambda>p::nat \<times> real. (fst p, df ! fst p)"
  obtain m where run: "recommend_by_title df cosine_sim t n = Inr (map ?g (take m ?rk))"
    using sq look by (rule recommended_rows)
  let ?out = "map ?g (take m ?rk)"
  have srt: "sorted_wrt before ?rk" using sq idx by (rule ranked_facts(3))
  have score: "\<forall>p \<in> set ?rk. snd p = cosine_sim ! idx ! fst p"
    using sq idx by (rule ranked_facts(4))
  have desc: "sorted_wrt (\<lambda>r s. cosine_sim ! idx ! fst s \<le> cosine_sim ! idx ! fst r) ?out"
  proof -
    have "sorted_wrt (\<lambda>p q. cosine_sim ! idx ! fst q \<le> cosine_sim ! idx ! fst p) ?rk"
      using srt
    proof (rule sorted_wrt_mono_rel[rotated])
      fix p q assume "p \<in> set ?rk" "q \<in> set ?rk" "before p q"
      with score show "cosine_sim ! idx ! fst q \<le> cosine_sim ! idx ! fst p"
        by (auto simp: before_def)
    qed
    then have "sorted_wrt (\<lambda>p q. cosine_sim ! idx ! fst q \<le> cosine_sim ! idx ! fst p) (take m ?rk)"
      by (rule sorted_wrt_take)
    then show ?thesis by (simp add: sorted_wrt_map)
  qed
  have first: "\<exists>i < j. fst (?out ! i) = a" if j: "j < length ?out" and jb: "fst (?out ! j) = b" for j
  proof -
    from j have jm: "j < m" and jl: "j < length ?rk" by simp_all
    from jb j have rb: "fst (?rk ! j) = b" by simp
    from a have "a \<in> fst ` set ?rk" by (simp only: ranked_facts(1)[OF sq idx])
    then obtain i where il: "i < length ?rk" and ra: "fst (?rk ! i) = a"
      by (auto simp: in_set_conv_nth)
    have "i < j"
    proof (rule ccontr)
      assume "\<not> i < j"
      moreover from ra rb ab have "i \<noteq> j" by auto
      ultimately have "j < i" by simp
      with srt il have "before (?rk ! j) (?rk ! i)" by (simp add: sorted_wrt_nth_less)
      moreover from score il have "snd (?rk ! i) = cosine_sim ! idx ! a" using ra by auto
      moreover from score jl have "snd (?rk ! j) = cosine_sim ! idx ! b" using rb by auto
      ultimately show False using tie ab ra rb by (simp add: before_def)
    qed
    moreover from this jm il have "fst (?out ! i) = a" using ra by simp
    ultimately show ?thesis by blast
  qed
  from run desc first show ?thesis by blast
qed

theorem tie_break_witness:
  "square_for catalog4 sim4 \<and> getitem (indices catalog4) ''A'' = Inr (Scalar 0) \<and>
   1 \<in> candidates catalog4 0 \<and> 3 \<in> candidates catalog4 0 \<and> (1::nat) < 3 \<and>
   sim4 ! 0 ! 1 = sim4 ! 0 ! 3 \<and>
   recommend_by_title catalog4 sim4 ''A'' 6 =
     Inr [(1, mk ''B'' ''Movie'' ''space adventure aliens''),
          (3, mk ''D'' ''Movie'' ''space adventure aliens'')] \<and>
   (\<exists>i < 1. fst ([(1::nat, mk ''B'' ''Movie'' ''space adventure aliens''),
          (3, mk ''D'' ''Movie'' ''space adventure aliens'')] ! i) = 1)"
proof -
  have ab: "(1::nat) < 3" by simp
  have tie: "sim4 ! 0 ! 1 = sim4 ! 0 ! 3" by (simp add: sim4_def eval_nat_numeral)
  from tie_break[OF sim4_square catalog4_A catalog4_candidates ab tie, of 6]
  obtain out where run: "recommend_by_title catalog4 sim4 ''A'' 6 = Inr out"
    and first: "\<forall>j < length out. fst (out ! j) = 3 \<longrightarrow> (\<exists>i < j. fst (out ! i) = 1)"
    by blast
  from run have out: "out = [(1, mk ''B'' ''Movie'' ''space adventure aliens''),
          (3, mk ''D'' ''Movie'' ''space adventure aliens'')]"
    by (simp only: catalog4_run sum.inject)
  have "1 < length out" "fst (out ! 1) = 3" by (simp_all add: out)
  with first have "\<exists>i < 1. fst (out ! i) = 1" by blast
  then have "\<exists>i < 1. fst ([(1::nat, mk ''B'' ''Movie'' ''space adventure aliens''),
          (3, mk ''D'' ''Movie'' ''space adventure aliens'')] ! i) = 1"
    unfolding out .
  with sim4_square catalog4_A catalog4_candidates ab tie catalog4_run show ?thesis by blast
qed

section \<open>The claims about the poster lookup\<close>

lemma read_body:
  assumes "expected_shape data"
  shows "(case dict_get data ''results'' of
            Inl e \<Rightarrow> Inl e
          | Inr results \<Rightarrow>
              if truthy results then
                (case subscript0 results of
                   Inl e \<Rightarrow> Inl e
                 | Inr first \<Rightarrow>
                     (case dict_get first ''poster_path'' of
                        Inl e \<Rightarrow> Inl e
                      | Inr poster_path \<Rightarrow>
                          if truthy poster_path then
                            (case str_add ''https://image.tmdb.org/t/p/w500'' poster_path of
                               Inl e \<Rightarrow> Inl e
                             | Inr poster \<Rightarrow> Inr (Some poster))
                          else Inr None))
              else Inr None) = (Inr (poster_url data) :: exn + string option)"
proof (cases data)
  case (JObj kvs)
  show ?thesis
  proof (cases "map_of kvs ''results''")
    case None
    with JObj show ?thesis by (simp add: poster_url_def)
  next
    case (Some results)
    show ?thesis
    proof (cases results)
      case (JArr xs)
      show ?thesis
      proof (cases xs)
        case Nil
        with JObj Some JArr show ?thesis by (simp add: poster_url_def)
      next
        case (Cons first others)
        with assms JObj Some JArr have ok: "poster_path_ok first" by simp
        then obtain fs where first: "first = JObj fs" by (cases first) simp_all
        show ?thesis
        proof (cases "map_of fs ''poster_path''")
          case None
          with JObj Some JArr Cons first show ?thesis by (simp add: poster_url_def)
        next
          case (Some pp)
          with ok first JObj \<open>map_of kvs ''results'' = Some results\<close> JArr Cons show ?thesis
            by (cases pp) (auto simp: poster_url_def split: list.splits)
        qed
      qed
    qed (use assms JObj Some in \<open>auto simp: poster_url_def\<close>)
  qed
qed (use assms in simp_all)

lemma fetch_poster_try_tame:
  assumes "\<forall>req. tame (http req)"
  shows "snd (fetch_poster_try key http t content_type) = Inr (expected_poster key http t content_type) \<or>
         (snd (fetch_poster_try key http t content_type) = Inl RequestException \<and>
          expected_poster key http t content_type = None)"
proof (cases key)
  case None
  then show ?thesis by (simp add: fetch_poster_try_def expected_poster_def)
next
  case (Some k)
  show ?thesis
  proof (cases "k = []")
    case True
    with Some show ?thesis by (simp add: fetch_poster_try_def expected_poster_def)
  next
    case False
    let ?req = "(if content_type = ''Movie''
                 then ''https://api.themoviedb.org/3/search/movie''
                 else ''https://api.themoviedb.org/3/search/tv'',
                 [(''api_key'', k), (''query'', t)])"
    from assms have tm: "tame (http ?req)" by blast
    show ?thesis
    proof (cases "http ?req")
      case (Inl e)
      with tm have "e = RequestException" by simp
      with Some False Inl show ?thesis
        by (simp add: fetch_poster_try_def expected_poster_def Let_def)
    next
      case (Inr r)
      show ?thesis
      proof (cases "status_code r = 200")
        case False
        with Some \<open>k \<noteq> []\<close> Inr show ?thesis
          by (simp add: fetch_poster_try_def expected_poster_def Let_def)
      next
        case True
        show ?thesis
        proof (cases "json_body r")
          case (Inl e)
          with tm Inr True have "e = RequestException" by simp
          with Some \<open>k \<noteq> []\<close> Inr True Inl show ?thesis
            by (simp add: fetch_poster_try_def expected_poster_def Let_def)
        next
          case body: (Inr data)
          with tm Inr True have "expected_shape data" by simp
          note read_body[OF this]
          with Some \<open>k \<noteq> []\<close> Inr True body show ?thesis
            by (simp add: fetch_poster_try_def expected_poster_def Let_def)
        qed
      qed
    qed
  qed
qed

text \<open>
  C9, as amended. When whatever \<open>requests.get\<close> does is tame (it raises
  \<open>RequestException\<close>, or answers with a status other than 200, or with a body whose
  decoding raises \<open>RequestException\<close> or has the expected shape), \<open>fetch_poster\<close>
  raises nothing and returns what its interface says: the poster URL when the key is set,
  the status is 200 and the first result carries a poster path, and \<open>None\<close> in every
  other case (no key, a failed request, another status, no results, no poster path).
\<close>

theorem fetch_poster_contained:
  assumes "\<forall>req. tame (http req)"
  shows "snd (fetch_poster key http t content_type) = Inr (expected_poster key http t content_type)"
proof -
  obtain sent res where tr: "fetch_poster_try key http t content_type = (sent, res)"
    by (cases "fetch_poster_try key http t content_type")
  from fetch_poster_try_tame[OF assms, of key t content_type] tr
  have "res = Inr (expected_poster key http t content_type) \<or>
        (res = Inl RequestException \<and> expected_poster key http t content_type = None)"
    by simp
  with tr show ?thesis by (auto simp: fetch_poster_def)
qed

lemma net_poster_tame: "\<forall>req. tame (net_poster req)"
  by (simp add: net_poster_def)

theorem fetch_poster_contained_witness:
  "(\<forall>req. tame (net_poster req)) \<and>
   snd (fetch_poster (Some ''k'') net_poster ''Up'' ''Movie'') =
     Inr (Some ''https://image.tmdb.org/t/p/w500/p.jpg'')"
proof -
  have "expected_poster (Some ''k'') net_poster ''Up'' ''Movie'' =
          Some ''https://image.tmdb.org/t/p/w500/p.jpg''"
    by (simp add: expected_poster_def net_poster_def poster_url_def)
  with fetch_poster_contained[OF net_poster_tame, of "Some ''k''" "''Up''" "''Movie''"]
    net_poster_tame
  show ?thesis by simp
qed

text \<open>
  C9 as stated fails: only \<open>RequestException\<close> is caught. A 200 response whose body
  decodes to a list has no \<open>get\<close> method, and the \<open>AttributeError\<close> of line 100 reaches
  the caller.
\<close>

theorem malformed_body_counterexample:
  "snd (fetch_poster (Some ''k'') net_list_body ''Up'' ''Movie'') = Inl AttributeError"
  by (simp add: fetch_poster_def fetch_poster_try_def net_list_body_def Let_def)

text \<open>Whatever the network does, no \<open>RequestException\<close> leaves \<open>fetch_poster\<close>.\<close>

lemma fetch_poster_no_request_exception:
  "snd (fetch_poster key http t content_type) \<noteq> Inl RequestException"
proof -
  obtain sent res where "fetch_poster_try key http t content_type = (sent, res)"
    by (cases "fetch_poster_try key http t content_type")
  then show ?thesis by (cases res) (auto simp: fetch_poster_def)
qed



section \<open>The claims about the similarity matrix\<close>

lemma analyze_all_texts:
  "list_all (\<lambda>c. c \<noteq> NaN) cells \<Longrightarrow> analyze_all lib cells = Inr (map (terms_of lib) cells)"
proof (induction cells)
  case Nil
  then show ?case by simp
next
  case (Cons c cells)
  then show ?case by (cases c) simp_all
qed

lemma analyze_all_missing:
  "NaN \<in> set cells \<Longrightarrow> analyze_all lib cells = Inl ValueError"
proof (induction cells)
  case Nil
  then show ?case by simp
next
  case (Cons c cells)
  show ?case
  proof (cases c)
    case NaN
    then show ?thesis by simp
  next
    case (Text s)
    with Cons.prems have "NaN \<in> set cells" by simp
    then have "analyze_all lib cells = Inl ValueError" by (rule Cons.IH)
    with Text show ?thesis by simp
  qed
qed

lemma sdot_no_entries_left: "sdot lib [] y = fzero lib"
  by (simp add: sdot_def)

lemma sdot_no_entries_right: "sdot lib x [] = fzero lib"
proof -
  have "concat (map (\<lambda>(t, v). map (\<lambda>(u, w). fmul lib v w) (filter (\<lambda>(u, w). u = t) [])) x) = []"
    by (induction x) auto
  then show ?thesis unfolding sdot_def by (simp only: foldl_Nil)
qed

lemma normalize_row_no_entries: "normalize_row lib [] = []"
  by (simp add: normalize_row_def)

lemma tfidf_row_no_terms: "tfidf_row lib analyzed [] = []"
  by (simp add: tfidf_row_def normalize_row_no_entries)

lemma length_cosine_similarity: "length (cosine_similarity lib X Y) = length X"
  by (simp add: cosine_similarity_def)

lemma cosine_similarity_nth:
  assumes "i < length X"
  shows "length (cosine_similarity lib X Y ! i) = length Y"
    and "j < length Y \<Longrightarrow>
         cosine_similarity lib X Y ! i ! j =
           sdot lib (normalize_row lib (X ! i)) (normalize_row lib (Y ! j))"
  using assms by (simp_all add: cosine_similarity_def)

lemma all_terms_nonempty:
  assumes "d \<in> set data" and "content d = Text s" and "analyze lib s \<noteq> []"
  shows "all_terms (map (terms_of lib) (map content data)) \<noteq> []"
proof -
  from assms(3) obtain w where "w \<in> set (analyze lib s)"
    by (cases "analyze lib s") auto
  with assms(2) have "w \<in> set (terms_of lib (content d))" by simp
  with assms(1) have "w \<in> set (all_terms (map (terms_of lib) (map content data)))"
    by (auto simp: all_terms_def)
  then show ?thesis by auto
qed

lemma compute_succeeds:
  assumes "list_all (\<lambda>d. content d \<noteq> NaN) data"
    and "\<exists>d \<in> set data. \<exists>s. content d = Text s \<and> analyze lib s \<noteq> []"
  shows "compute_cosine_similarity lib data =
           Inr (cosine_similarity lib
                  (map (tfidf_row lib (map (terms_of lib) (map content data)))
                     (map (terms_of lib) (map content data)))
                  (map (tfidf_row lib (map (terms_of lib) (map content data)))
                     (map (terms_of lib) (map content data))))"
proof -
  from assms(1) have "list_all (\<lambda>c. c \<noteq> NaN) (map content data)"
    by (simp add: list_all_iff)
  then have an: "analyze_all lib (map content data) = Inr (map (terms_of lib) (map content data))"
    by (rule analyze_all_texts)
  from assms(2) obtain d s where "d \<in> set data" "content d = Text s" "analyze lib s \<noteq> []"
    by blast
  then have "all_terms (map (terms_of lib) (map content data)) \<noteq> []"
    by (rule all_terms_nonempty)
  with an show ?thesis by (simp add: compute_cosine_similarity_def fit_transform_def)
qed

lemma cosine_entry:
  assumes "list_all (\<lambda>d. content d \<noteq> NaN) data"
    and "\<exists>d \<in> set data. \<exists>s. content d = Text s \<and> analyze lib s \<noteq> []"
    and "i < length data" and "j < length data"
  obtains M where "compute_cosine_similarity lib data = Inr M"
    and "M ! i ! j =
           sdot lib
             (normalize_row lib (tfidf_row lib (map (terms_of lib) (map content data))
                (terms_of lib (content (data ! i)))))
             (normalize_row lib (tfidf_row lib (map (terms_of lib) (map content data))
                (terms_of lib (content (data ! j)))))"
proof -
  let ?an = "map (terms_of lib) (map content data)"
  let ?X = "map (tfidf_row lib ?an) ?an"
  have run: "compute_cosine_similarity lib data = Inr (cosine_similarity lib ?X ?X)"
    using assms(1,2) by (rule compute_succeeds)
  have i: "i < length ?X" and j: "j < length ?X" using assms(3,4) by simp_all
  have row: "?X ! k = tfidf_row lib ?an (terms_of lib (content (data ! k)))"
    if "k < length data" for k
    using that by simp
  have "cosine_similarity lib ?X ?X ! i ! j =
          sdot lib (normalize_row lib (?X ! i)) (normalize_row lib (?X ! j))"
    using i j by (rule cosine_similarity_nth(2))
  then have "cosine_similarity lib ?X ?X ! i ! j =
          sdot lib (normalize_row lib (tfidf_row lib ?an (terms_of lib (content (data ! i)))))
                   (normalize_row lib (tfidf_row lib ?an (terms_of lib (content (data ! j)))))"
    by (simp only: row[OF assms(3)] row[OF assms(4)])
  with run show thesis by (rule that)
qed

lemma blank_terms:
  assumes "content d = Text s" and "set (tokenize lib (lower lib s)) \<subseteq> set (stop_words lib)"
  shows "terms_of lib (content d) = []"
  using assms by (auto simp: analyze_def filter_empty_conv)


lemma length_analyze_all:
  "analyze_all lib cells = Inr analyzed \<Longrightarrow> length analyzed = length cells"
proof (induction cells arbitrary: analyzed)
  case Nil
  then show ?case by simp
next
  case (Cons c cells)
  then show ?case by (cases c) (auto split: sum.splits)
qed

lemma computed_matrix_square:
  assumes "compute_cosine_similarity lib data = Inr M"
  shows "square_for data M"
proof -
  from assms obtain X where fit: "fit_transform lib (map content data) = Inr X"
    and M: "M = cosine_similarity lib X X"
    by (auto simp: compute_cosine_similarity_def split: sum.splits)
  from fit obtain analyzed where an: "analyze_all lib (map content data) = Inr analyzed"
    and X: "X = map (tfidf_row lib analyzed) analyzed"
    by (auto simp: fit_transform_def split: sum.splits if_splits)
  from length_analyze_all[OF an] X have lenX: "length X = length data" by simp
  have "length M = length data" by (simp add: M length_cosine_similarity lenX)
  moreover have "length (M ! i) = length data" if "i < length M" for i
  proof -
    from that have "i < length X" by (simp add: M length_cosine_similarity)
    then have "length (cosine_similarity lib X X ! i) = length X"
      by (rule cosine_similarity_nth(1))
    then show ?thesis by (simp add: M lenX)
  qed
  ultimately show ?thesis by (simp add: square_for_def list_all_length)
qed

lemma missing_content_raises:
  assumes "\<exists>d \<in> set data. content d = NaN"
  shows "compute_cosine_similarity lib data = Inl ValueError"
proof -
  from assms have "NaN \<in> set (map content data)" by force
  then have "analyze_all lib (map content data) = Inl ValueError" by (rule analyze_all_missing)
  then show ?thesis by (simp add: compute_cosine_similarity_def fit_transform_def)
qed

lemma no_terms_raises:
  assumes "\<forall>d \<in> set data. terms_of lib (content d) = []"
  shows "compute_cosine_similarity lib data = Inl ValueError"
proof (cases "\<exists>d \<in> set data. content d = NaN")
  case True
  then show ?thesis by (rule missing_content_raises)
next
  case False
  then have "list_all (\<lambda>c. c \<noteq> NaN) (map content data)" by (auto simp: list_all_iff)
  then have "analyze_all lib (map content data) = Inr (map (terms_of lib) (map content data))"
    by (rule analyze_all_texts)
  moreover from assms have "all_terms (map (terms_of lib) (map content data)) = []"
    by (auto simp: all_terms_def)
  ultimately show ?thesis by (simp add: compute_cosine_similarity_def fit_transform_def)
qed

lemma catalog_stop_texts: "list_all (\<lambda>d. content d \<noteq> NaN) catalog_stop"
  by (simp add: catalog_stop_def)

lemma catalog_stop_some:
  "\<exists>d \<in> set catalog_stop. \<exists>s. content d = Text s \<and> analyze sample_lib s \<noteq> []"
proof -
  have "analyze sample_lib ''Space adventure'' = [''space'', ''adventure'']"
    by (simp add: analyze_def tokenize_def sample_lib_def some_stop_words_def
        is_word_char_def lower_char_def)
  then have "content (catalog_stop ! 0) = Text ''Space adventure'' \<and>
             analyze sample_lib ''Space adventure'' \<noteq> []"
    by (simp add: catalog_stop_def)
  moreover have "catalog_stop ! 0 \<in> set catalog_stop" by (simp add: catalog_stop_def)
  ultimately show ?thesis by blast
qed

lemma catalog_stop_blank:
  "content (catalog_stop ! 1) = Text ''the and of''"
  "set (tokenize sample_lib (lower sample_lib ''the and of'')) \<subseteq> set (stop_words sample_lib)"
  by (simp_all add: catalog_stop_def tokenize_def sample_lib_def some_stop_words_def
      is_word_char_def lower_char_def)




text \<open>
  C8, as amended. For every catalog whose content cells are all texts and in which some
  row has a term, and every row \<open>i\<close> of it whose content has no token outside the stop
  words: the construction completes, and the similarity of row \<open>i\<close> with every row
  \<open>j\<close>, in both orders, is exactly the float \<open>0.0\<close>. This holds for every arithmetic,
  also one in which a division by zero gives not-a-number: the feature row of \<open>i\<close>
  stores no entry, so nothing is divided and nothing is added.
\<close>

theorem blank_row_similarity:
  assumes texts: "list_all (\<lambda>d. content d \<noteq> NaN) data"
    and some: "\<exists>d \<in> set data. \<exists>s. content d = Text s \<and> analyze lib s \<noteq> []"
    and i: "i < length data" and j: "j < length data"
    and cell: "content (data ! i) = Text s"
    and blank: "set (tokenize lib (lower lib s)) \<subseteq> set (stop_words lib)"
  shows "\<exists>M. compute_cosine_similarity lib data = Inr M \<and>
             M ! i ! j = fzero lib \<and> M ! j ! i = fzero lib"
proof -
  let ?an = "map (terms_of lib) (map content data)"
  let ?ri = "tfidf_row lib ?an (terms_of lib (content (data ! i)))"
  let ?rj = "tfidf_row lib ?an (terms_of lib (content (data ! j)))"
  from cell blank have "terms_of lib (content (data ! i)) = []" by (rule blank_terms)
  then have row: "normalize_row lib ?ri = []"
    by (simp only: tfidf_row_no_terms normalize_row_no_entries)
  obtain M where run: "compute_cosine_similarity lib data = Inr M"
    and ij: "M ! i ! j = sdot lib (normalize_row lib ?ri) (normalize_row lib ?rj)"
    using texts some i j by (rule cosine_entry)
  obtain M' where run': "compute_cosine_similarity lib data = Inr M'"
    and ji: "M' ! j ! i = sdot lib (normalize_row lib ?rj) (normalize_row lib ?ri)"
    using texts some j i by (rule cosine_entry)
  from run run' have same: "M' = M" by simp
  from ij row have "M ! i ! j = fzero lib" by (simp only: sdot_no_entries_left)
  moreover from ji row same have "M ! j ! i = fzero lib" by (simp only: sdot_no_entries_right)
  ultimately show ?thesis using run by blast
qed

theorem blank_row_similarity_witness:
  "list_all (\<lambda>d. content d \<noteq> NaN) catalog_stop \<and>
   (\<exists>d \<in> set catalog_stop. \<exists>s. content d = Text s \<and> analyze sample_lib s \<noteq> []) \<and>
   1 < length catalog_stop \<and> 0 < length catalog_stop \<and>
   content (catalog_stop ! 1) = Text ''the and of'' \<and>
   set (tokenize sample_lib (lower sample_lib ''the and of'')) \<subseteq> set (stop_words sample_lib) \<and>
   map_sum id (\<lambda>M. (M ! 1 ! 0, M ! 0 ! 1))
     (compute_cosine_similarity sample_lib catalog_stop) = Inr (Some 0, Some 0)"
proof -
  have i: "1 < length catalog_stop" and j: "0 < length catalog_stop"
    by (simp_all add: catalog_stop_def)
  from blank_row_similarity[OF catalog_stop_texts catalog_stop_some i j catalog_stop_blank]
  obtain M where run: "compute_cosine_similarity sample_lib catalog_stop = Inr M"
    and zero: "M ! 1 ! 0 = fzero sample_lib" "M ! 0 ! 1 = fzero sample_lib"
    by blast
  from zero have "M ! 1 ! 0 = Some 0" "M ! 0 ! 1 = Some 0" by (simp_all add: sample_lib_def)
  with run have "map_sum id (\<lambda>M. (M ! 1 ! 0, M ! 0 ! 1))
     (compute_cosine_similarity sample_lib catalog_stop) = Inr (Some 0, Some 0)"
    by simp
  with catalog_stop_texts catalog_stop_some i j catalog_stop_blank show ?thesis by blast
qed

text \<open>
  C8 as stated fails for an entry whose content field is empty: the cell is \<open>NaN\<close> in
  the frame, \<open>fit_transform\<close> raises \<open>ValueError\<close> for it, the construction does not
  complete and the entry has no similarity to any other.
\<close>

theorem missing_content_counterexample:
  "compute_cosine_similarity sample_lib catalog_missing = Inl ValueError"
  by (simp add: compute_cosine_similarity_def fit_transform_def catalog_missing_def)

end
